theory Spec2Isabelle
  imports Complex_Main "HOL-Library.Multiset" "HOL-Library.Char_ord" "HOL-Library.List_Lexorder"
    "HOL-Library.Product_Lexorder"
begin

section \<open>The report aggregator of docs/qdrant/qdrant_analysis.py\<close>

text \<open>
  The script loads four exported JSON documents, folds every point record into seven
  aggregates and prints a report. The model below follows \<^verbatim>\<open>main\<close> statement by
  statement. What \<^verbatim>\<open>json.load\<close> returns is a value of type \<open>json\<close>; every exception
  the interpreter can raise on such a value is a value of type \<open>error\<close>; what
  \<^verbatim>\<open>print\<close> writes is a list of lines, each a list of items.
\<close>

subsection \<open>Values\<close>

text \<open>
  A parsed JSON value. A number is its numeric value (Python's \<^verbatim>\<open>1\<close> and \<^verbatim>\<open>1.0\<close> are
  equal and hash alike, and the \<^verbatim>\<open>statistics\<close> module sums exactly), but for the float
  \<^verbatim>\<open>-0.0\<close>, which equals 0 and prints with its sign: it is \<open>JNegZero\<close>. An object is the
  \<^verbatim>\<open>dict\<close> that \<^verbatim>\<open>json.load\<close> built, its keys in insertion order. The literals
  \<^verbatim>\<open>NaN\<close> and \<^verbatim>\<open>Infinity\<close>, which \<^verbatim>\<open>json.load\<close> accepts though they are not JSON, and
  numbers beyond the range of a float are not represented.
\<close>

datatype json =
    JNull
  | JBool bool
  | JNum rat
  | JNegZero
  | JStr string
  | JArr "json list"
  | JObj "(string \<times> json) list"

datatype error =
  AttributeError | TypeError | KeyError | ValueError | ZeroDivisionError | StatisticsError

text \<open>
  A hashable value as a member of a \<^verbatim>\<open>set\<close> or a key of a \<^verbatim>\<open>dict\<close>: \<^verbatim>\<open>True == 1\<close> and
  \<^verbatim>\<open>False == 0\<close> in Python, so a boolean is the number it equals.
\<close>

datatype pykey = KNone | KNum rat | KStr string

fun py_hash :: "json \<Rightarrow> error + pykey" where
  "py_hash JNull = Inr KNone"
| "py_hash (JBool b) = Inr (KNum (if b then 1 else 0))"
| "py_hash (JNum r) = Inr (KNum r)"
| "py_hash JNegZero = Inr (KNum 0)"
| "py_hash (JStr s) = Inr (KStr s)"
| "py_hash (JArr xs) = Inl TypeError"
| "py_hash (JObj kvs) = Inl TypeError"

text \<open>Sequencing of steps that may raise: the first exception ends the computation.\<close>

definition bind :: "error + 'a \<Rightarrow> ('a \<Rightarrow> error + 'b) \<Rightarrow> error + 'b" where
  "bind m f = (case m of Inl e \<Rightarrow> Inl e | Inr v \<Rightarrow> f v)"

fun foldM :: "('s \<Rightarrow> 'a \<Rightarrow> error + 's) \<Rightarrow> 's \<Rightarrow> 'a list \<Rightarrow> error + 's" where
  "foldM f s [] = Inr s"
| "foldM f s (x # xs) = bind (f s x) (\<lambda>s'. foldM f s' xs)"

subsection \<open>The operations of Python the script applies to parsed values\<close>

text \<open>\<^verbatim>\<open>needle in hay\<close> on two strings: a contiguous occurrence.\<close>

fun is_substr :: "string \<Rightarrow> string \<Rightarrow> bool" where
  "is_substr needle [] = (needle = [])"
| "is_substr needle (c # cs) = (take (length needle) (c # cs) = needle \<or> is_substr needle cs)"

text \<open>\<^verbatim>\<open>k in v\<close> for a string \<open>k\<close>.\<close>

fun py_in :: "string \<Rightarrow> json \<Rightarrow> error + bool" where
  "py_in k (JObj kvs) = Inr (map_of kvs k \<noteq> None)"
| "py_in k (JStr s) = Inr (is_substr k s)"
| "py_in k (JArr xs) = Inr (JStr k \<in> set xs)"
| "py_in k JNull = Inl TypeError"
| "py_in k (JBool b) = Inl TypeError"
| "py_in k (JNum r) = Inl TypeError"
| "py_in k JNegZero = Inl TypeError"

text \<open>\<^verbatim>\<open>v[k]\<close> for a string \<open>k\<close>.\<close>

fun py_getitem :: "json \<Rightarrow> string \<Rightarrow> error + json" where
  "py_getitem (JObj kvs) k = (case map_of kvs k of None \<Rightarrow> Inl KeyError | Some v \<Rightarrow> Inr v)"
| "py_getitem JNull k = Inl TypeError"
| "py_getitem (JBool b) k = Inl TypeError"
| "py_getitem (JNum r) k = Inl TypeError"
| "py_getitem JNegZero k = Inl TypeError"
| "py_getitem (JStr s) k = Inl TypeError"
| "py_getitem (JArr xs) k = Inl TypeError"

text \<open>\<^verbatim>\<open>len(v)\<close>.\<close>

fun py_len :: "json \<Rightarrow> error + nat" where
  "py_len (JArr xs) = Inr (length xs)"
| "py_len (JStr s) = Inr (length s)"
| "py_len (JObj kvs) = Inr (length kvs)"
| "py_len JNull = Inl TypeError"
| "py_len (JBool b) = Inl TypeError"
| "py_len (JNum r) = Inl TypeError"
| "py_len JNegZero = Inl TypeError"

text \<open>Iterating over a value, as \<^verbatim>\<open>list.extend\<close> does.\<close>

fun py_iter :: "json \<Rightarrow> error + json list" where
  "py_iter (JArr xs) = Inr xs"
| "py_iter (JStr s) = Inr (map (\<lambda>c. JStr [c]) s)"
| "py_iter (JObj kvs) = Inr (map (\<lambda>kv. JStr (fst kv)) kvs)"
| "py_iter JNull = Inl TypeError"
| "py_iter (JBool b) = Inl TypeError"
| "py_iter (JNum r) = Inl TypeError"
| "py_iter JNegZero = Inl TypeError"

text \<open>The truth value of a parsed value in a condition.\<close>

fun py_truthy :: "json \<Rightarrow> bool" where
  "py_truthy JNull = False"
| "py_truthy (JBool b) = b"
| "py_truthy (JNum r) = (r \<noteq> 0)"
| "py_truthy JNegZero = False"
| "py_truthy (JStr s) = (s \<noteq> [])"
| "py_truthy (JArr xs) = (xs \<noteq> [])"
| "py_truthy (JObj kvs) = (kvs \<noteq> [])"

text \<open>\<^verbatim>\<open>point.get('payload', {})\<close>: only a dict has \<^verbatim>\<open>get\<close>.\<close>

fun get_payload :: "json \<Rightarrow> error + json" where
  "get_payload (JObj kvs) = Inr (case map_of kvs ''payload'' of None \<Rightarrow> JObj [] | Some v \<Rightarrow> v)"
| "get_payload JNull = Inl AttributeError"
| "get_payload (JBool b) = Inl AttributeError"
| "get_payload (JNum r) = Inl AttributeError"
| "get_payload JNegZero = Inl AttributeError"
| "get_payload (JStr s) = Inl AttributeError"
| "get_payload (JArr xs) = Inl AttributeError"

text \<open>\<^verbatim>\<open>payload.keys()\<close>: only a dict has \<^verbatim>\<open>keys\<close>.\<close>

fun py_keys :: "json \<Rightarrow> error + string list" where
  "py_keys (JObj kvs) = Inr (map fst kvs)"
| "py_keys JNull = Inl AttributeError"
| "py_keys (JBool b) = Inl AttributeError"
| "py_keys (JNum r) = Inl AttributeError"
| "py_keys JNegZero = Inl AttributeError"
| "py_keys (JStr s) = Inl AttributeError"
| "py_keys (JArr xs) = Inl AttributeError"

text \<open>
  \<^verbatim>\<open>s.add(v)\<close> on a set, kept as the list of its members without repetition, and
  \<^verbatim>\<open>d[v] += 1\<close> on a \<^verbatim>\<open>defaultdict(int)\<close>, kept as its items in insertion order. Both
  hash \<open>v\<close> first.
\<close>

definition add_member :: "'a list \<Rightarrow> 'a \<Rightarrow> 'a list" where
  "add_member xs x = (if x \<in> set xs then xs else xs @ [x])"

definition set_add :: "pykey list \<Rightarrow> json \<Rightarrow> error + pykey list" where
  "set_add s v = bind (py_hash v) (\<lambda>k. Inr (add_member s k))"

fun incr :: "('k \<times> nat) list \<Rightarrow> 'k \<Rightarrow> ('k \<times> nat) list" where
  "incr [] k = [(k, 1)]"
| "incr ((k', c) # d) k = (if k' = k then (k', c + 1) # d else (k', c) # incr d k)"

definition dict_incr :: "(pykey \<times> nat) list \<Rightarrow> json \<Rightarrow> error + (pykey \<times> nat) list" where
  "dict_incr d v = bind (py_hash v) (\<lambda>k. Inr (incr d k))"

subsection \<open>Loading and the aggregation loop\<close>

text \<open>
  \<^verbatim>\<open>for batch in range(1, 5)\<close>: \<open>files batch\<close> is the parsed content of
  \<^verbatim>\<open>qdrant_batch_{batch}.json\<close>. A missing file and malformed JSON are outside the model.
\<close>

definition load_doc :: "json list \<Rightarrow> json \<Rightarrow> error + json list" where
  "load_doc all_points data =
     bind (py_getitem data ''result'') (\<lambda>result.
     bind (py_getitem result ''points'') (\<lambda>points.
     bind (py_iter points) (\<lambda>ps. Inr (all_points @ ps))))"

definition load :: "(nat \<Rightarrow> json) \<Rightarrow> error + json list" where
  "load files = foldM load_doc [] (map files [1..<5])"

record agg =
  files_unique :: "pykey list"
  categories_dist :: "(pykey \<times> nat) list"
  intelligence_types :: "(pykey \<times> nat) list"
  convergence_chains :: "nat list"
  enrichment_levels :: "(pykey \<times> nat) list"
  convergence_scores :: "json list"
  payload_fields :: "string list"

definition empty_agg :: agg where
  "empty_agg = \<lparr>files_unique = [], categories_dist = [], intelligence_types = [],
     convergence_chains = [], enrichment_levels = [], convergence_scores = [],
     payload_fields = []\<rparr>"

text \<open>Lines 39-40: every payload key goes into the field catalogue.\<close>

definition step_fields :: "(string \<times> json) list \<Rightarrow> agg \<Rightarrow> agg" where
  "step_fields payload st = st\<lparr>payload_fields := foldl add_member (payload_fields st) (map fst payload)\<rparr>"

text \<open>Lines 43-46: the file identity.\<close>

definition step_file :: "(string \<times> json) list \<Rightarrow> agg \<Rightarrow> error + agg" where
  "step_file payload st =
     (case map_of payload ''sourceFile'' of
        Some v \<Rightarrow> bind (set_add (files_unique st) v) (\<lambda>s. Inr (st\<lparr>files_unique := s\<rparr>))
      | None \<Rightarrow>
         (case map_of payload ''file'' of
            Some v \<Rightarrow> bind (set_add (files_unique st) v) (\<lambda>s. Inr (st\<lparr>files_unique := s\<rparr>))
          | None \<Rightarrow> Inr st))"

text \<open>Lines 49-54: categories, a list of them or a single one.\<close>

definition step_categories :: "(string \<times> json) list \<Rightarrow> agg \<Rightarrow> error + agg" where
  "step_categories payload st =
     (case map_of payload ''categories'' of
        None \<Rightarrow> Inr st
      | Some (JArr cats) \<Rightarrow>
          bind (foldM dict_incr (categories_dist st) cats) (\<lambda>d. Inr (st\<lparr>categories_dist := d\<rparr>))
      | Some v \<Rightarrow>
          bind (dict_incr (categories_dist st) v) (\<lambda>d. Inr (st\<lparr>categories_dist := d\<rparr>)))"

text \<open>Lines 57-60: the intelligence type under either spelling.\<close>

definition step_intelligence :: "(string \<times> json) list \<Rightarrow> agg \<Rightarrow> error + agg" where
  "step_intelligence payload st =
     (case map_of payload ''intelligence_type'' of
        Some v \<Rightarrow> bind (dict_incr (intelligence_types st) v) (\<lambda>d. Inr (st\<lparr>intelligence_types := d\<rparr>))
      | None \<Rightarrow>
         (case map_of payload ''intelligenceType'' of
            Some v \<Rightarrow> bind (dict_incr (intelligence_types st) v) (\<lambda>d. Inr (st\<lparr>intelligence_types := d\<rparr>))
          | None \<Rightarrow> Inr st))"

text \<open>
  Lines 66-70: one chain adds the length of its \<^verbatim>\<open>participants\<close> and its
  \<^verbatim>\<open>convergenceScore\<close>, whatever value that is.
\<close>

definition step_chain :: "nat list \<times> json list \<Rightarrow> json \<Rightarrow> error + nat list \<times> json list" where
  "step_chain acc chain =
     bind (py_in ''participants'' chain) (\<lambda>has_p.
     bind (if has_p
           then bind (py_getitem chain ''participants'') (\<lambda>p.
                bind (py_len p) (\<lambda>n. Inr (fst acc @ [n])))
           else Inr (fst acc)) (\<lambda>cc.
     bind (py_in ''convergenceScore'' chain) (\<lambda>has_s.
     bind (if has_s
           then bind (py_getitem chain ''convergenceScore'') (\<lambda>s. Inr (snd acc @ [s]))
           else Inr (snd acc)) (\<lambda>cs.
     Inr (cc, cs)))))"

text \<open>Lines 63-70: only a list of chains is looked into.\<close>

definition step_chains :: "(string \<times> json) list \<Rightarrow> agg \<Rightarrow> error + agg" where
  "step_chains payload st =
     (case map_of payload ''convergenceChains'' of
        Some (JArr chain_list) \<Rightarrow>
          bind (foldM step_chain (convergence_chains st, convergence_scores st) chain_list) (\<lambda>acc.
          Inr (st\<lparr>convergence_chains := fst acc, convergence_scores := snd acc\<rparr>))
      | _ \<Rightarrow> Inr st)"

text \<open>Lines 73-76: the enrichment level under either spelling.\<close>

definition step_enrichment :: "(string \<times> json) list \<Rightarrow> agg \<Rightarrow> error + agg" where
  "step_enrichment payload st =
     (case map_of payload ''enrichment_level'' of
        Some v \<Rightarrow> bind (dict_incr (enrichment_levels st) v) (\<lambda>d. Inr (st\<lparr>enrichment_levels := d\<rparr>))
      | None \<Rightarrow>
         (case map_of payload ''enrichmentLevel'' of
            Some v \<Rightarrow> bind (dict_incr (enrichment_levels st) v) (\<lambda>d. Inr (st\<lparr>enrichment_levels := d\<rparr>))
          | None \<Rightarrow> Inr st))"

text \<open>
  Lines 35-76, the body of the loop. After \<^verbatim>\<open>payload.keys()\<close> has returned, the payload
  is a dict.
\<close>

definition process_point :: "agg \<Rightarrow> json \<Rightarrow> error + agg" where
  "process_point st point =
     bind (get_payload point) (\<lambda>payload.
     bind (py_keys payload) (\<lambda>keys.
       (case payload of
          JObj kvs \<Rightarrow>
            bind (step_file kvs (step_fields kvs st)) (\<lambda>st1.
            bind (step_categories kvs st1) (\<lambda>st2.
            bind (step_intelligence kvs st2) (\<lambda>st3.
            bind (step_chains kvs st3) (\<lambda>st4.
            step_enrichment kvs st4))))
        | _ \<Rightarrow> Inl AttributeError)))"

definition analyze :: "json list \<Rightarrow> error + agg" where
  "analyze all_points = foldM process_point empty_agg all_points"

subsection \<open>What the report prints\<close>

text \<open>
  A printed line is the list of its pieces: literal text and the values the f-strings
  interpolate. \<open>Fix1\<close> and \<open>Fix2\<close> are \<^verbatim>\<open>{x:.1f}\<close> and \<^verbatim>\<open>{x:.2f}\<close>, \<open>Pct\<close> is the
  \<^verbatim>\<open>{percentage:.1f}\<close> of the percentage lines, \<open>Pad2\<close> is \<^verbatim>\<open>{i:2d}\<close>, \<open>Root2 v\<close> is
  the square root of \<open>v\<close> under \<^verbatim>\<open>{x:.2f}\<close>, and \<open>NegZero2\<close> is the float \<^verbatim>\<open>-0.0\<close>
  under \<^verbatim>\<open>{x:.2f}\<close>. An empty line is \<open>[]\<close>. A run of the
  program is the lines it printed and the exception that ended it, if one did.
\<close>

datatype item =
    Lit string
  | Num nat
  | Pad2 nat
  | Fix1 rat
  | Fix2 rat
  | Pct rat
  | Root2 rat
  | NegZero2
  | Key pykey
  | Val json
  | Strs "string list"

type_synonym line = "item list"

type_synonym out = "line list \<times> error option"

definition says :: "line list \<Rightarrow> out" where
  "says ls = (ls, None)"

definition attempt :: "error + 'a \<Rightarrow> ('a \<Rightarrow> out) \<Rightarrow> out" where
  "attempt m f = (case m of Inl e \<Rightarrow> ([], Some e) | Inr v \<Rightarrow> f v)"

fun run_sections :: "out list \<Rightarrow> out" where
  "run_sections [] = ([], None)"
| "run_sections ((ls, Some e) # rest) = (ls, Some e)"
| "run_sections ((ls, None) # rest) = (ls @ fst (run_sections rest), snd (run_sections rest))"

subsection \<open>Sorting and statistics\<close>

fun str_of :: "pykey \<Rightarrow> string option" where
  "str_of (KStr s) = Some s"
| "str_of (KNum r) = None"
| "str_of KNone = None"

fun num_of :: "pykey \<Rightarrow> rat option" where
  "num_of (KNum r) = Some r"
| "num_of (KStr s) = None"
| "num_of KNone = None"

text \<open>
  \<^verbatim>\<open>sorted(list(s))\<close> on the members of a set: strings sort among themselves, numbers
  among themselves, and any other comparison raises.
\<close>

definition py_sorted :: "pykey list \<Rightarrow> error + pykey list" where
  "py_sorted ks =
     (if length ks \<le> 1 then Inr ks
      else case those (map str_of ks) of
        Some ss \<Rightarrow> Inr (map KStr (sort ss))
      | None \<Rightarrow>
         (case those (map num_of ks) of
            Some rs \<Rightarrow> Inr (map KNum (sort rs))
          | None \<Rightarrow> Inl TypeError))"

text \<open>\<^verbatim>\<open>sorted(d.items(), key=lambda x: x[1], reverse=True)\<close>: descending and stable.\<close>

definition by_count_desc :: "('k \<times> nat) list \<Rightarrow> ('k \<times> nat) list" where
  "by_count_desc d = sort_key (\<lambda>x. - int (snd x)) d"

definition percentage :: "nat \<Rightarrow> nat \<Rightarrow> error + rat" where
  "percentage cnt n =
     (if n = 0 then Inl ZeroDivisionError else Inr (of_nat cnt / of_nat n * 100))"

text \<open>
  A recorded score that is a number: its value, or the float \<^verbatim>\<open>-0.0\<close>. A boolean is
  the integer it equals. \<^verbatim>\<open>statistics.mean\<close> raises \<^verbatim>\<open>TypeError\<close> on anything else.
\<close>

datatype score = Score rat | MinusZero

fun number :: "score \<Rightarrow> rat" where
  "number (Score r) = r"
| "number MinusZero = 0"

fun score_of :: "json \<Rightarrow> score option" where
  "score_of (JNum r) = Some (Score r)"
| "score_of JNegZero = Some MinusZero"
| "score_of (JBool b) = Some (Score (if b then 1 else 0))"
| "score_of JNull = None"
| "score_of (JStr s) = None"
| "score_of (JArr xs) = None"
| "score_of (JObj kvs) = None"

definition numbers :: "json list \<Rightarrow> error + score list" where
  "numbers vs = (case those (map score_of vs) of None \<Rightarrow> Inl TypeError | Some ss \<Rightarrow> Inr ss)"

text \<open>A score under \<^verbatim>\<open>{x:.2f}\<close>.\<close>

fun score_item :: "score \<Rightarrow> item" where
  "score_item (Score r) = Fix2 r"
| "score_item MinusZero = NegZero2"

definition mean :: "rat list \<Rightarrow> error + rat" where
  "mean xs = (if xs = [] then Inl StatisticsError else Inr (sum_list xs / of_nat (length xs)))"

definition median :: "rat list \<Rightarrow> error + rat" where
  "median xs =
     (let data = sort xs; n = length data in
      if n = 0 then Inl StatisticsError
      else if n mod 2 = 1 then Inr (data ! (n div 2))
      else Inr ((data ! (n div 2 - 1) + data ! (n div 2)) / 2))"

fun maximum :: "'a::linorder list \<Rightarrow> error + 'a" where
  "maximum [] = Inl ValueError"
| "maximum (x # xs) = Inr (fold max xs x)"

fun minimum :: "'a::linorder list \<Rightarrow> error + 'a" where
  "minimum [] = Inl ValueError"
| "minimum (x # xs) = Inr (fold min xs x)"

text \<open>
  On scores, \<^verbatim>\<open>max\<close> and \<^verbatim>\<open>min\<close> return the first of the greatest and of the least
  elements, \<^verbatim>\<open>sorted\<close> keeps equal elements in their order, and the sum of two floats is
  \<^verbatim>\<open>-0.0\<close> only when both are: with \<^verbatim>\<open>0\<close> and \<^verbatim>\<open>-0.0\<close> among the scores, which of the
  two is returned depends on their order.
\<close>

fun score_max :: "score list \<Rightarrow> error + score" where
  "score_max [] = Inl ValueError"
| "score_max (x # xs) = Inr (fold (\<lambda>y m. if number m < number y then y else m) xs x)"

fun score_min :: "score list \<Rightarrow> error + score" where
  "score_min [] = Inl ValueError"
| "score_min (x # xs) = Inr (fold (\<lambda>y m. if number y < number m then y else m) xs x)"

definition half_sum :: "score \<Rightarrow> score \<Rightarrow> score" where
  "half_sum a b =
     (if a = MinusZero \<and> b = MinusZero then MinusZero else Score ((number a + number b) / 2))"

definition score_median :: "score list \<Rightarrow> error + score" where
  "score_median xs =
     (let data = sort_key number xs; n = length data in
      if n = 0 then Inl StatisticsError
      else if n mod 2 = 1 then Inr (data ! (n div 2))
      else Inr (half_sum (data ! (n div 2 - 1)) (data ! (n div 2))))"

text \<open>
  \<^verbatim>\<open>statistics.stdev\<close> is the square root of the sample variance, and raises on fewer
  than two values. The model returns the variance.
\<close>

definition variance :: "rat list \<Rightarrow> error + rat" where
  "variance xs =
     (if length xs < 2 then Inl StatisticsError
      else let m = sum_list xs / of_nat (length xs) in
        Inr (sum_list (map (\<lambda>x. (x - m) * (x - m)) xs) / of_nat (length xs - 1)))"

subsection \<open>The sections of the report\<close>

text \<open>Lines 79-85.\<close>

definition connection_status :: "json list \<Rightarrow> out" where
  "connection_status all_points = says
     [[Lit ''## Connection Status''],
      [Lit ''- Server: http://qdr.vcia.com.br:6333 [OK]''],
      [Lit ''- Collection: knowledge_consolidator [OK]''],
      [Lit ''- Total points analyzed: '', Num (length all_points)],
      [Lit ''- Vector dimensions: 768 (nomic-embed-text)''],
      [Lit ''- Collection status: Green''],
      []]"

text \<open>Lines 87-91.\<close>

definition data_overview :: "agg \<Rightarrow> out" where
  "data_overview st = says
     [[Lit ''## Data Overview''],
      [Lit ''- Unique files processed: '', Num (length (files_unique st))],
      [Lit ''- Payload fields available: '', Num (length (payload_fields st))],
      [Lit ''- Field catalog: '', Strs (sort (payload_fields st))],
      []]"

text \<open>
  \<^verbatim>\<open>v[:5]\<close>. A list and a string have slices; a dict raises (\<^verbatim>\<open>TypeError\<close> up to
  Python 3.11).
\<close>

fun py_first5 :: "json \<Rightarrow> error + json" where
  "py_first5 (JArr xs) = Inr (JArr (take 5 xs))"
| "py_first5 (JStr s) = Inr (JStr (take 5 s))"
| "py_first5 (JObj kvs) = Inl TypeError"
| "py_first5 JNull = Inl TypeError"
| "py_first5 (JBool b) = Inl TypeError"
| "py_first5 (JNum r) = Inl TypeError"
| "py_first5 JNegZero = Inl TypeError"

text \<open>Lines 98-99.\<close>

definition sample_file :: "json \<Rightarrow> out" where
  "sample_file sample_point =
     attempt (get_payload sample_point) (\<lambda>sample_payload.
     attempt (py_in ''sourceFile'' sample_payload) (\<lambda>has_file.
       if has_file
       then attempt (py_getitem sample_payload ''sourceFile'') (\<lambda>v.
              says [[Lit ''- Sample File: '', Val v]])
       else says []))"

text \<open>Lines 100-106.\<close>

definition sample_chain :: "json \<Rightarrow> out" where
  "sample_chain sample_point =
     attempt (get_payload sample_point) (\<lambda>sample_payload.
     attempt (py_in ''convergenceChains'' sample_payload) (\<lambda>has_chains.
       if has_chains
       then attempt (py_getitem sample_payload ''convergenceChains'') (\<lambda>chs.
         (case chs of
            JArr (first_chain # rest) \<Rightarrow>
              attempt (py_in ''participants'' first_chain) (\<lambda>has_p.
                if has_p
                then attempt (py_getitem first_chain ''participants'') (\<lambda>ps.
                  run_sections
                    [attempt (py_len ps) (\<lambda>n.
                       says [[Lit ''- Sample Chain Size: '', Num n, Lit '' participants'']]),
                     attempt (py_first5 ps) (\<lambda>v.
                       says [[Lit ''- First 5 Participants: '', Val v]])])
                else says [])
          | _ \<Rightarrow> says []))
       else says []))"

text \<open>Lines 93-107, with \<^verbatim>\<open>sample_point\<close> of line 33.\<close>

definition sample_section :: "json list \<Rightarrow> out" where
  "sample_section all_points =
     run_sections
       [says [[Lit ''## Sample Point Analysis'']],
        (case all_points of
           [] \<Rightarrow> says []
         | sample_point # rest \<Rightarrow>
            if py_truthy sample_point
            then run_sections
              [attempt (py_getitem sample_point ''id'') (\<lambda>i.
                 says [[Lit ''- Sample Point ID: '', Val i]]),
               attempt (bind (get_payload sample_point) py_keys) (\<lambda>ks.
                 says [[Lit ''- Sample Payload Keys: '', Strs ks]]),
               sample_file sample_point,
               sample_chain sample_point]
            else says []),
        says [[]]]"

text \<open>Lines 109-115.\<close>

definition files_section :: "agg \<Rightarrow> out" where
  "files_section st =
     run_sections
       [says [[Lit ''## Unique Files Mapped ('', Num (length (files_unique st)), Lit '' total):'']],
        attempt (py_sorted (files_unique st)) (\<lambda>file_list.
          says (map (\<lambda>(i, file). [Pad2 i, Lit ''. '', Key file])
                  (zip [1..<26] (take 25 file_list))
                @ (if length file_list > 25
                   then [[Lit ''... and '', Num (length file_list - 25), Lit '' more files'']]
                   else [])
                @ [[]]))]"

text \<open>
  The loops of lines 119-121, 126-128 and 176-178: one line for each item of a count
  dictionary, most frequent first.
\<close>

definition dist_lines :: "(pykey \<times> nat) list \<Rightarrow> nat \<Rightarrow> out" where
  "dist_lines d n =
     run_sections
       (map (\<lambda>(k, cnt).
          attempt (percentage cnt n) (\<lambda>p.
            says [[Lit ''- '', Key k, Lit '': '', Num cnt, Lit '' points ('', Pct p, Lit ''%)'']]))
        (by_count_desc d))"

text \<open>Lines 117-122.\<close>

definition categories_section :: "json list \<Rightarrow> agg \<Rightarrow> out" where
  "categories_section all_points st =
     run_sections
       [says [[Lit ''## Categories Distribution:'']],
        dist_lines (categories_dist st) (length all_points),
        says [[]]]"

text \<open>Lines 124-129.\<close>

definition intelligence_section :: "json list \<Rightarrow> agg \<Rightarrow> out" where
  "intelligence_section all_points st =
     run_sections
       [says [[Lit ''## Intelligence Types Analysis:'']],
        dist_lines (intelligence_types st) (length all_points),
        says [[]]]"

text \<open>
  Lines 131-146. \<^verbatim>\<open>Counter(convergence_chains)\<close> counts in the order of first
  occurrence, and \<^verbatim>\<open>sorted\<close> orders its items as pairs.
\<close>

definition chain_section :: "nat list \<Rightarrow> out" where
  "chain_section cc =
     run_sections
       [says [[Lit ''## Convergence Chain Analysis:'']],
        (if cc \<noteq> []
         then run_sections
           [says [[Lit ''- Total chains analyzed: '', Num (length cc)]],
            attempt (mean (map of_nat cc)) (\<lambda>m.
              says [[Lit ''- Average participants per chain: '', Fix1 m]]),
            attempt (median (map of_nat cc)) (\<lambda>m.
              says [[Lit ''- Median participants per chain: '', Fix1 m]]),
            attempt (maximum cc) (\<lambda>m.
              says [[Lit ''- Max participants in chain: '', Num m]]),
            attempt (minimum cc) (\<lambda>m.
              says [[Lit ''- Min participants in chain: '', Num m]]),
            says [[Lit ''- Chain size distribution:'']],
            says (map (\<lambda>(size, cnt).
                    [Lit ''  * '', Num size, Lit '' participants: '', Num cnt, Lit '' chains''])
                  (sort (foldl incr [] cc)))]
         else says [[Lit ''- No convergence chains data found'']]),
        says [[]]]"

text \<open>Lines 158-164: the five ranges, in the order of the dictionary literal.\<close>

definition score_ranges :: "rat list \<Rightarrow> (string \<times> rat list) list" where
  "score_ranges scores =
     [(''0-5'', filter (\<lambda>s. 0 \<le> s \<and> s < 5) scores),
      (''5-10'', filter (\<lambda>s. 5 \<le> s \<and> s < 10) scores),
      (''10-15'', filter (\<lambda>s. 10 \<le> s \<and> s < 15) scores),
      (''15-20'', filter (\<lambda>s. 15 \<le> s \<and> s < 20) scores),
      (''20+'', filter (\<lambda>s. s \<ge> 20) scores)]"

text \<open>Lines 166-168.\<close>

definition range_lines :: "rat list \<Rightarrow> out" where
  "range_lines scores =
     run_sections
       (map (\<lambda>(range_name, ss).
          if ss \<noteq> []
          then attempt (mean ss) (\<lambda>m.
            says [[Lit ''  * '', Lit range_name, Lit '': '', Num (length ss),
                   Lit '' scores (avg: '', Fix2 m, Lit '')'']])
          else says [])
        (score_ranges scores))"

text \<open>
  Lines 148-171. Line 151 is the first to read the scores as numbers, so what follows it
  runs on numbers only. The mean, the variance and the ranges depend on the values of the
  scores; the median, the maximum and the minimum are scores of the list (or half the sum
  of two).
\<close>

definition score_section :: "json list \<Rightarrow> out" where
  "score_section cs =
     run_sections
       [says [[Lit ''## Convergence Scores Analysis:'']],
        (if cs \<noteq> []
         then run_sections
           [says [[Lit ''- Total scores recorded: '', Num (length cs)]],
            attempt (numbers cs) (\<lambda>scores.
              run_sections
                [attempt (mean (map number scores)) (\<lambda>m.
                   says [[Lit ''- Average convergence score: '', Fix2 m]]),
                 attempt (score_median scores) (\<lambda>m.
                   says [[Lit ''- Median convergence score: '', score_item m]]),
                 attempt (score_max scores) (\<lambda>m.
                   says [[Lit ''- Max convergence score: '', score_item m]]),
                 attempt (score_min scores) (\<lambda>m.
                   says [[Lit ''- Min convergence score: '', score_item m]]),
                 attempt (variance (map number scores)) (\<lambda>v.
                   says [[Lit ''- Standard deviation: '', Root2 v]]),
                 says [[Lit ''- Score distribution by ranges:'']],
                 range_lines (map number scores)])]
         else says [[Lit ''- No convergence scores data found'']]),
        says [[]]]"

text \<open>Lines 173-181.\<close>

definition enrichment_section :: "json list \<Rightarrow> agg \<Rightarrow> out" where
  "enrichment_section all_points st =
     run_sections
       [says [[Lit ''## Enrichment Levels Analysis:'']],
        (if enrichment_levels st \<noteq> []
         then dist_lines (enrichment_levels st) (length all_points)
         else says [[Lit ''- No enrichment levels data found'']]),
        says [[]]]"

text \<open>
  Lines 184-187: \<^verbatim>\<open>'a' in p.get('payload', {}) or 'b' in p.get('payload', {})\<close>, and the
  number of points for which it holds.
\<close>

fun has_any :: "string list \<Rightarrow> json \<Rightarrow> error + bool" where
  "has_any [] p = Inr False"
| "has_any (k # ks) p =
     bind (get_payload p) (\<lambda>payload.
     bind (py_in k payload) (\<lambda>b. if b then Inr True else has_any ks p))"

definition points_with :: "string list \<Rightarrow> json list \<Rightarrow> error + nat" where
  "points_with ks all_points =
     foldM (\<lambda>c p. bind (has_any ks p) (\<lambda>b. Inr (if b then c + 1 else c))) 0 all_points"

definition quality_line :: "string \<Rightarrow> nat \<Rightarrow> nat \<Rightarrow> out" where
  "quality_line label cnt n =
     attempt (percentage cnt n) (\<lambda>p.
       says [[Lit label, Num cnt, Lit ''/'', Num n, Lit '' ('', Pct p, Lit ''%)'']])"

text \<open>Lines 183-193.\<close>

definition quality_section :: "json list \<Rightarrow> out" where
  "quality_section all_points =
     run_sections
       [says [[Lit ''## Data Quality Assessment:'']],
        attempt (points_with [''sourceFile'', ''file''] all_points) (\<lambda>points_with_files.
        attempt (points_with [''categories''] all_points) (\<lambda>points_with_categories.
        attempt (points_with [''intelligence_type'', ''intelligenceType''] all_points)
          (\<lambda>points_with_intelligence.
        attempt (points_with [''convergenceChains''] all_points) (\<lambda>points_with_chains.
          run_sections
            [quality_line ''- Points with file information: '' points_with_files
               (length all_points),
             quality_line ''- Points with categories: '' points_with_categories
               (length all_points),
             quality_line ''- Points with intelligence type: '' points_with_intelligence
               (length all_points),
             quality_line ''- Points with convergence chains: '' points_with_chains
               (length all_points),
             says [[]]]))))]"

text \<open>Lines 195-203.\<close>

definition insights_section :: "agg \<Rightarrow> out" where
  "insights_section st =
     run_sections
       [says [[Lit ''## Key Insights & Recommendations:''],
              [Lit ''1. Data completeness: All 351 points successfully retrieved''],
              [Lit ''2. File diversity: '', Num (length (files_unique st)),
               Lit '' unique files processed by Intelligence Enrichment Pipeline'']],
        (if convergence_scores st \<noteq> []
         then attempt (bind (numbers (convergence_scores st)) (\<lambda>scores. mean (map number scores)))
           (\<lambda>m.
           says [[Lit ''3. Convergence quality: Average score of '', Fix2 m,
                  Lit '' indicates good semantic relationships'']])
         else says []),
        (if categories_dist st \<noteq> []
         then says [[Lit ''4. Categorization: '', Num (length (categories_dist st)),
                     Lit '' distinct categories show good knowledge organization'']]
         else says []),
        says [[Lit ''5. Vector quality: 768-dimensional embeddings provide rich semantic representation''],
              []]]"

text \<open>Lines 205-217, literal text. The quotation marks and the backslash by code.\<close>

definition dq :: string where "dq = [CHR 0x22]"
definition sq :: string where "sq = [CHR 0x27]"
definition bsl :: string where "bsl = [CHR 0x5C]"

definition curl_section :: out where
  "curl_section = says
     [[Lit ''## CURL Commands for Verification:''],
      [Lit ''# Collection info:''],
      [Lit (''curl -s '' @ dq @ ''http://qdr.vcia.com.br:6333/collections/knowledge_consolidator''
            @ dq @ '' | python -m json.tool'')],
      [],
      [Lit ''# Search by similarity (example):''],
      [Lit (''curl -s -X POST '' @ dq
            @ ''http://qdr.vcia.com.br:6333/collections/knowledge_consolidator/points/search''
            @ dq @ '' '' @ bsl)],
      [Lit (''  -H '' @ dq @ ''Content-Type: application/json'' @ dq @ '' '' @ bsl)],
      [Lit (''  -d '' @ sq @ ''{'' @ dq @ ''vector'' @ dq @ '': [0.1]*768, '' @ dq @ ''limit'' @ dq
            @ '': 5, '' @ dq @ ''with_payload'' @ dq @ '': true}'' @ sq)],
      [],
      [Lit ''# Scroll all points:''],
      [Lit (''curl -s -X POST '' @ dq
            @ ''http://qdr.vcia.com.br:6333/collections/knowledge_consolidator/points/scroll''
            @ dq @ '' '' @ bsl)],
      [Lit (''  -H '' @ dq @ ''Content-Type: application/json'' @ dq @ '' '' @ bsl)],
      [Lit (''  -d '' @ sq @ ''{'' @ dq @ ''limit'' @ dq @ '': 100, '' @ dq @ ''with_payload'' @ dq
            @ '': true, '' @ dq @ ''with_vector'' @ dq @ '': false}'' @ sq)]]"

subsection \<open>The program\<close>

text \<open>Lines 78-217: the report, from the loaded points and the aggregates.\<close>

definition report :: "json list \<Rightarrow> agg \<Rightarrow> out" where
  "report all_points st =
     run_sections
       [connection_status all_points,
        data_overview st,
        sample_section all_points,
        files_section st,
        categories_section all_points st,
        intelligence_section all_points st,
        chain_section (convergence_chains st),
        score_section (convergence_scores st),
        enrichment_section all_points st,
        quality_section all_points,
        insights_section st,
        curl_section]"

text \<open>Lines 12-217.\<close>

definition main :: "(nat \<Rightarrow> json) \<Rightarrow> out" where
  "main files =
     run_sections
       [says [[Lit ''=== QDRANT KNOWLEDGE CONSOLIDATOR ANALYSIS ===''], []],
        attempt (load files) (\<lambda>all_points.
        attempt (analyze all_points) (\<lambda>st.
          report all_points st))]"

section \<open>Notions for stating and proving the properties\<close>

subsection \<open>Readings of the report and of the input\<close>

text \<open>The percentages a list of printed lines shows, in the order printed.\<close>

fun item_percentage :: "item \<Rightarrow> rat list" where
  "item_percentage (Pct p) = [p]"
| "item_percentage other = []"

definition percentages :: "line list \<Rightarrow> rat list" where
  "percentages ls = concat (map (\<lambda>l. concat (map item_percentage l)) ls)"

text \<open>A run whose printed percentages all satisfy \<open>P\<close>.\<close>

definition all_percentages :: "(rat \<Rightarrow> bool) \<Rightarrow> out \<Rightarrow> bool" where
  "all_percentages P s = list_all P (percentages (fst s))"

text \<open>The line the report prints for one range of scores that holds the scores \<open>ss\<close>.\<close>

definition bucket_line :: "string \<Rightarrow> rat list \<Rightarrow> line" where
  "bucket_line range_name ss =
     [Lit ''  * '', Lit range_name, Lit '': '', Num (length ss), Lit '' scores (avg: '',
      Fix2 (sum_list ss / of_nat (length ss)), Lit '')'']"

text \<open>
  The file identity of a payload as the specification words it: the value under
  \<^verbatim>\<open>sourceFile\<close> when that key is present, otherwise the value under \<^verbatim>\<open>file\<close> when
  that key is present, otherwise none.
\<close>

definition file_identity :: "(string \<times> json) list \<Rightarrow> json option" where
  "file_identity payload =
     (if ''sourceFile'' \<in> fst ` set payload then map_of payload ''sourceFile''
      else if ''file'' \<in> fst ` set payload then map_of payload ''file''
      else None)"

text \<open>The count a dictionary of counts holds for a key, 0 for a key it does not have.\<close>

definition count_of :: "('k \<times> nat) list \<Rightarrow> 'k \<Rightarrow> nat" where
  "count_of d k = (case map_of d k of None \<Rightarrow> 0 | Some c \<Rightarrow> c)"

subsection \<open>What one point adds to the aggregates\<close>

text \<open>
  The body of the loop reads the running aggregates only to extend them, so a point
  has a contribution of its own: the keys and values it adds, or the exception it raises.
\<close>

record contribution =
  c_fields :: "string list"
  c_file :: "pykey option"
  c_categories :: "pykey list"
  c_intelligence :: "pykey option"
  c_chains :: "nat list"
  c_scores :: "json list"
  c_enrichment :: "pykey option"

fun mapM :: "('a \<Rightarrow> error + 'b) \<Rightarrow> 'a list \<Rightarrow> error + 'b list" where
  "mapM f [] = Inr []"
| "mapM f (x # xs) = bind (f x) (\<lambda>y. bind (mapM f xs) (\<lambda>ys. Inr (y # ys)))"

definition first_of :: "string \<Rightarrow> string \<Rightarrow> (string \<times> json) list \<Rightarrow> json option" where
  "first_of a b payload = (case map_of payload a of Some v \<Rightarrow> Some v | None \<Rightarrow> map_of payload b)"

definition hash_opt :: "json option \<Rightarrow> error + pykey option" where
  "hash_opt v = (case v of None \<Rightarrow> Inr None | Some x \<Rightarrow> bind (py_hash x) (\<lambda>k. Inr (Some k)))"

definition category_values :: "(string \<times> json) list \<Rightarrow> json list" where
  "category_values payload =
     (case map_of payload ''categories'' of
        None \<Rightarrow> [] | Some (JArr cats) \<Rightarrow> cats | Some v \<Rightarrow> [v])"

definition chain_values :: "(string \<times> json) list \<Rightarrow> error + nat list \<times> json list" where
  "chain_values payload =
     (case map_of payload ''convergenceChains'' of
        Some (JArr chain_list) \<Rightarrow> foldM step_chain ([], []) chain_list
      | _ \<Rightarrow> Inr ([], []))"

definition contribution_of :: "json \<Rightarrow> error + contribution" where
  "contribution_of p =
     bind (get_payload p) (\<lambda>payload.
     bind (py_keys payload) (\<lambda>keys.
       (case payload of
          JObj kvs \<Rightarrow>
            bind (hash_opt (first_of ''sourceFile'' ''file'' kvs)) (\<lambda>f.
            bind (mapM py_hash (category_values kvs)) (\<lambda>cats.
            bind (hash_opt (first_of ''intelligence_type'' ''intelligenceType'' kvs)) (\<lambda>i.
            bind (chain_values kvs) (\<lambda>ch.
            bind (hash_opt (first_of ''enrichment_level'' ''enrichmentLevel'' kvs)) (\<lambda>e.
            Inr \<lparr>c_fields = keys, c_file = f, c_categories = cats, c_intelligence = i,
                 c_chains = fst ch, c_scores = snd ch, c_enrichment = e\<rparr>)))))
        | _ \<Rightarrow> Inl AttributeError)))"

definition incr_opt :: "('k \<times> nat) list \<Rightarrow> 'k option \<Rightarrow> ('k \<times> nat) list" where
  "incr_opt d k = (case k of None \<Rightarrow> d | Some x \<Rightarrow> incr d x)"

definition absorb :: "agg \<Rightarrow> contribution \<Rightarrow> agg" where
  "absorb st c =
     \<lparr>files_unique = (case c_file c of None \<Rightarrow> files_unique st
                       | Some k \<Rightarrow> add_member (files_unique st) k),
      categories_dist = foldl incr (categories_dist st) (c_categories c),
      intelligence_types = incr_opt (intelligence_types st) (c_intelligence c),
      convergence_chains = convergence_chains st @ c_chains c,
      enrichment_levels = incr_opt (enrichment_levels st) (c_enrichment c),
      convergence_scores = convergence_scores st @ c_scores c,
      payload_fields = foldl add_member (payload_fields st) (c_fields c)\<rparr>"


text \<open>
  A point whose \<^verbatim>\<open>categories\<close> list names no category twice (two entries that are equal
  as dictionary keys).
\<close>

definition no_repeated_category :: "json \<Rightarrow> bool" where
  "no_repeated_category p =
     (case get_payload p of
        Inr (JObj kvs) \<Rightarrow> distinct (map py_hash (category_values kvs))
      | _ \<Rightarrow> True)"

section \<open>Example inputs\<close>

text \<open>
  A document of the shape \<^verbatim>\<open>{"result": {"points": [...]}}\<close>, a point with an id and a
  payload, and four batch files of which the first holds the given points.
\<close>

definition doc :: "json list \<Rightarrow> json" where
  "doc pts = JObj [(''result'', JObj [(''points'', JArr pts)])]"

definition point :: "(string \<times> json) list \<Rightarrow> json" where
  "point payload = JObj [(''id'', JNum 1), (''payload'', JObj payload)]"

definition batches :: "json list \<Rightarrow> nat \<Rightarrow> json" where
  "batches pts batch = (if batch = 1 then doc pts else doc [])"

text \<open>
  Four points: one with both file keys, two categories, an intelligence type and two
  chains; one with a single category and an enrichment level; one with neither file key;
  one that repeats a file.
\<close>

definition sample_points :: "json list" where
  "sample_points =
     [point [(''sourceFile'', JStr ''b.md''), (''file'', JStr ''x.md''),
             (''categories'', JArr [JStr ''tech'', JStr ''ai'']),
             (''intelligence_type'', JStr ''insight''),
             (''convergenceChains'',
                JArr [JObj [(''participants'', JArr [JStr ''p'', JStr ''q'']),
                            (''convergenceScore'', JNum 22)],
                      JObj [(''convergenceScore'', JNum 6)]])],
      point [(''file'', JStr ''a.md''), (''categories'', JStr ''ai''),
             (''enrichmentLevel'', JStr ''full'')],
      point [(''title'', JStr ''untitled'')],
      point [(''file'', JStr ''b.md'')]]"

text \<open>A point with one chain for each of the given scores, and nothing else.\<close>

definition score_point :: "json list \<Rightarrow> json" where
  "score_point scores =
     point [(''convergenceChains'', JArr (map (\<lambda>s. JObj [(''convergenceScore'', s)]) scores))]"

text \<open>The aggregates of these four points.\<close>

definition sample_agg :: agg where
  "sample_agg =
     \<lparr>files_unique = [KStr ''b.md'', KStr ''a.md''],
      categories_dist = [(KStr ''tech'', 1), (KStr ''ai'', 2)],
      intelligence_types = [(KStr ''insight'', 1)],
      convergence_chains = [2],
      enrichment_levels = [(KStr ''full'', 1)],
      convergence_scores = [JNum 22, JNum 6],
      payload_fields = [''sourceFile'', ''file'', ''categories'', ''intelligence_type'',
        ''convergenceChains'', ''enrichmentLevel'', ''title'']\<rparr>"

section \<open>Properties\<close>

subsection \<open>Sequencing\<close>

lemma bind_Inr [simp]: "bind (Inr v) f = f v"
  by (simp add: bind_def)

lemma bind_Inl [simp]: "bind (Inl e) f = Inl e"
  by (simp add: bind_def)

lemma bind_assoc: "bind (bind m f) g = bind m (\<lambda>x. bind (f x) g)"
  by (cases m) simp_all

lemma bind_eq_Inr: "bind m f = Inr y \<longleftrightarrow> (\<exists>x. m = Inr x \<and> f x = Inr y)"
  by (cases m) simp_all

lemma run_sections_ok_Cons:
  "snd s = None \<Longrightarrow>
   run_sections (s # rest) = (fst s @ fst (run_sections rest), snd (run_sections rest))"
  by (cases s) simp

lemma run_sections_err_Cons:
  "snd s = Some e \<Longrightarrow> run_sections (s # rest) = (fst s, Some e)"
  by (cases s) simp

lemma run_sections_single: "run_sections [s] = s"
proof (cases s)
  case (Pair ls e)
  then show ?thesis by (cases e) simp_all
qed

lemma run_sections_all_ok:
  "list_all (\<lambda>s. snd s = None) secs \<Longrightarrow> run_sections secs = (concat (map fst secs), None)"
  by (induction secs) (auto simp: run_sections_ok_Cons)


subsection \<open>The loop, point by point\<close>

text \<open>
  Each step of the loop body extends the running aggregate by what the payload holds,
  whatever the aggregate is; so the loop is the list of the points' contributions,
  absorbed one after the other.
\<close>

lemma foldM_dict_incr:
  "foldM dict_incr d vs = bind (mapM py_hash vs) (\<lambda>ks. Inr (foldl incr d ks))"
proof (induction vs arbitrary: d)
  case Nil
  then show ?case by simp
next
  case (Cons v vs)
  show ?case
  proof (cases "py_hash v")
    case (Inl e)
    then show ?thesis by (simp add: dict_incr_def)
  next
    case (Inr k)
    then have "dict_incr d v = Inr (incr d k)"
      by (simp add: dict_incr_def)
    with Inr show ?thesis
      by (cases "mapM py_hash vs") (simp_all add: Cons.IH)
  qed
qed

lemma step_chain_acc:
  "step_chain acc ch = bind (step_chain ([], []) ch) (\<lambda>r. Inr (fst acc @ fst r, snd acc @ snd r))"
  unfolding step_chain_def
  by (cases "py_in ''participants'' ch"; cases "py_in ''convergenceScore'' ch";
      cases "py_getitem ch ''participants''"; cases "py_getitem ch ''convergenceScore''")
     (auto simp: bind_def split: sum.splits)

lemma foldM_step_chain_acc:
  "foldM step_chain acc chs =
     bind (foldM step_chain ([], []) chs) (\<lambda>r. Inr (fst acc @ fst r, snd acc @ snd r))"
proof (induction chs arbitrary: acc)
  case Nil
  then show ?case by simp
next
  case (Cons ch chs)
  show ?case
  proof (cases "step_chain ([], []) ch")
    case (Inl e)
    then show ?thesis
      using step_chain_acc[of acc ch] by simp
  next
    case (Inr r)
    have a: "step_chain acc ch = Inr (fst acc @ fst r, snd acc @ snd r)"
      using step_chain_acc[of acc ch] Inr by simp
    show ?thesis
    proof (cases "foldM step_chain ([], []) chs")
      case (Inl e)
      then show ?thesis
        using a Inr Cons.IH[of "(fst acc @ fst r, snd acc @ snd r)"] Cons.IH[of r]
        by simp
    next
      case (Inr t)
      then show ?thesis
        using a \<open>step_chain ([], []) ch = Inr r\<close>
          Cons.IH[of "(fst acc @ fst r, snd acc @ snd r)"] Cons.IH[of r]
        by simp
    qed
  qed
qed

lemma step_file_eq:
  "step_file kvs st =
     bind (hash_opt (first_of ''sourceFile'' ''file'' kvs)) (\<lambda>f.
       Inr (st\<lparr>files_unique := (case f of None \<Rightarrow> files_unique st
                                  | Some k \<Rightarrow> add_member (files_unique st) k)\<rparr>))"
  by (auto simp: step_file_def hash_opt_def first_of_def set_add_def bind_def
           split: option.splits sum.splits)

lemma step_categories_eq:
  "step_categories kvs st =
     bind (mapM py_hash (category_values kvs)) (\<lambda>cats.
       Inr (st\<lparr>categories_dist := foldl incr (categories_dist st) cats\<rparr>))"
  by (auto simp: step_categories_def category_values_def foldM_dict_incr dict_incr_def bind_def
           split: option.splits sum.splits json.splits)

lemma step_intelligence_eq:
  "step_intelligence kvs st =
     bind (hash_opt (first_of ''intelligence_type'' ''intelligenceType'' kvs)) (\<lambda>i.
       Inr (st\<lparr>intelligence_types := incr_opt (intelligence_types st) i\<rparr>))"
  by (auto simp: step_intelligence_def hash_opt_def first_of_def dict_incr_def bind_def incr_opt_def
           split: option.splits sum.splits)

lemma step_enrichment_eq:
  "step_enrichment kvs st =
     bind (hash_opt (first_of ''enrichment_level'' ''enrichmentLevel'' kvs)) (\<lambda>e.
       Inr (st\<lparr>enrichment_levels := incr_opt (enrichment_levels st) e\<rparr>))"
  by (auto simp: step_enrichment_def hash_opt_def first_of_def dict_incr_def bind_def incr_opt_def
           split: option.splits sum.splits)

lemma step_chains_eq:
  "step_chains kvs st =
     bind (chain_values kvs) (\<lambda>ch.
       Inr (st\<lparr>convergence_chains := convergence_chains st @ fst ch,
               convergence_scores := convergence_scores st @ snd ch\<rparr>))"
proof -
  have "bind (foldM step_chain (convergence_chains st, convergence_scores st) chs) (\<lambda>acc.
          Inr (st\<lparr>convergence_chains := fst acc, convergence_scores := snd acc\<rparr>)) =
        bind (foldM step_chain ([], []) chs) (\<lambda>ch.
          Inr (st\<lparr>convergence_chains := convergence_chains st @ fst ch,
               convergence_scores := convergence_scores st @ snd ch\<rparr>))" for chs
    by (subst foldM_step_chain_acc) (simp add: bind_def split: sum.splits)
  then show ?thesis
    by (simp add: step_chains_def chain_values_def split: option.splits json.splits)
qed

lemma process_point_absorb:
  "process_point st p = bind (contribution_of p) (\<lambda>c. Inr (absorb st c))"
proof (cases "get_payload p")
  case (Inl e)
  then show ?thesis by (simp add: process_point_def contribution_of_def)
next
  case (Inr payload)
  show ?thesis
  proof (cases payload)
    case (JObj kvs)
    with Inr show ?thesis
      by (cases st)
         (simp add: process_point_def contribution_of_def step_file_eq step_categories_eq
          step_intelligence_eq step_chains_eq step_enrichment_eq step_fields_def absorb_def
          bind_def split: sum.splits option.splits)
  qed (use Inr in \<open>simp_all add: process_point_def contribution_of_def\<close>)
qed

lemma foldM_process_point:
  "foldM process_point st pts = bind (mapM contribution_of pts) (\<lambda>cs. Inr (foldl absorb st cs))"
proof (induction pts arbitrary: st)
  case Nil
  then show ?case by simp
next
  case (Cons p pts)
  show ?case
  proof (cases "contribution_of p")
    case (Inl e)
    then have "process_point st p = Inl e" by (simp add: process_point_absorb)
    with Inl show ?thesis by simp
  next
    case (Inr c)
    then have "process_point st p = Inr (absorb st c)" by (simp add: process_point_absorb)
    with Inr show ?thesis
      by (cases "mapM contribution_of pts") (simp_all add: Cons.IH)
  qed
qed

lemma analyze_eq:
  "analyze pts = bind (mapM contribution_of pts) (\<lambda>cs. Inr (foldl absorb empty_agg cs))"
  by (simp add: analyze_def foldM_process_point)


lemma mapM_Inr_D:
  "mapM f xs = Inr ys \<Longrightarrow> (\<forall>x\<in>set xs. \<exists>y. f x = Inr y) \<and> ys = map (\<lambda>x. projr (f x)) xs"
proof (induction xs arbitrary: ys)
  case Nil
  then show ?case by simp
next
  case (Cons x xs)
  from Cons.prems obtain y ys' where "f x = Inr y" "mapM f xs = Inr ys'" "ys = y # ys'"
    by (auto simp: bind_eq_Inr)
  with Cons.IH[of ys'] show ?case by simp
qed



lemma set_add_member [simp]: "set (add_member xs x) = insert x (set xs)"
  by (auto simp: add_member_def)

lemma distinct_add_member [simp]: "distinct (add_member xs x) = distinct xs"
  by (auto simp: add_member_def)


lemma set_foldl_add_member [simp]: "set (foldl add_member xs ys) = set xs \<union> set ys"
  by (induction ys arbitrary: xs) auto

lemma distinct_foldl_add_member [simp]: "distinct (foldl add_member xs ys) = distinct xs"
  by (induction ys arbitrary: xs) auto

lemma map_of_incr:
  "map_of (incr d k) k' = (if k' = k then Some (count_of d k + 1) else map_of d k')"
  by (induction d) (auto simp: count_of_def)

lemma count_of_incr: "count_of (incr d k) k' = count_of d k' + (if k' = k then 1 else 0)"
  by (simp add: count_of_def map_of_incr)

lemma count_of_foldl_incr: "count_of (foldl incr d ks) k = count_of d k + count_list ks k"
  by (induction ks arbitrary: d) (auto simp: count_of_incr)

lemma keys_incr: "set (map fst (incr d k)) = insert k (set (map fst d))"
  by (induction d k rule: incr.induct) auto

lemma distinct_keys_incr [simp]: "distinct (map fst (incr d k)) = distinct (map fst d)"
  by (induction d k rule: incr.induct) (auto simp: keys_incr simp del: set_map)

lemma distinct_keys_foldl_incr [simp]:
  "distinct (map fst (foldl incr d ks)) = distinct (map fst d)"
  by (induction ks arbitrary: d) auto

lemma count_of_incr_opt:
  "count_of (incr_opt d ko) k = count_of d k + (if ko = Some k then 1 else 0)"
  by (cases ko) (auto simp: incr_opt_def count_of_incr)

lemma distinct_keys_incr_opt [simp]:
  "distinct (map fst (incr_opt d ko)) = distinct (map fst d)"
  by (cases ko) (simp_all add: incr_opt_def)

lemma absorb_simps [simp]:
  "files_unique (absorb st c) = (case c_file c of None \<Rightarrow> files_unique st
                       | Some k \<Rightarrow> add_member (files_unique st) k)"
  "categories_dist (absorb st c) = foldl incr (categories_dist st) (c_categories c)"
  "intelligence_types (absorb st c) = incr_opt (intelligence_types st) (c_intelligence c)"
  "convergence_chains (absorb st c) = convergence_chains st @ c_chains c"
  "enrichment_levels (absorb st c) = incr_opt (enrichment_levels st) (c_enrichment c)"
  "convergence_scores (absorb st c) = convergence_scores st @ c_scores c"
  "payload_fields (absorb st c) = foldl add_member (payload_fields st) (c_fields c)"
  by (simp_all add: absorb_def)

lemma files_absorbed:
  "set (files_unique (foldl absorb st cs)) =
     set (files_unique st) \<union> {k. \<exists>c\<in>set cs. c_file c = Some k}"
  by (induction cs arbitrary: st) (auto split: option.splits)

lemma distinct_files_absorbed:
  "distinct (files_unique (foldl absorb st cs)) = distinct (files_unique st)"
  by (induction cs arbitrary: st) (auto split: option.splits)



lemma distinct_fields_absorbed:
  "distinct (payload_fields (foldl absorb st cs)) = distinct (payload_fields st)"
  by (induction cs arbitrary: st) auto

lemma categories_absorbed:
  "count_of (categories_dist (foldl absorb st cs)) k =
     count_of (categories_dist st) k + sum_list (map (\<lambda>c. count_list (c_categories c) k) cs)"
  by (induction cs arbitrary: st) (auto simp: count_of_foldl_incr)

lemma intelligence_absorbed:
  "count_of (intelligence_types (foldl absorb st cs)) k =
     count_of (intelligence_types st) k +
     sum_list (map (\<lambda>c. if c_intelligence c = Some k then 1 else 0) cs)"
  by (induction cs arbitrary: st) (auto simp: count_of_incr_opt)

lemma enrichment_absorbed:
  "count_of (enrichment_levels (foldl absorb st cs)) k =
     count_of (enrichment_levels st) k +
     sum_list (map (\<lambda>c. if c_enrichment c = Some k then 1 else 0) cs)"
  by (induction cs arbitrary: st) (auto simp: count_of_incr_opt)

lemma distinct_dicts_absorbed:
  "distinct (map fst (categories_dist (foldl absorb st cs))) = distinct (map fst (categories_dist st))"
  "distinct (map fst (intelligence_types (foldl absorb st cs))) = distinct (map fst (intelligence_types st))"
  "distinct (map fst (enrichment_levels (foldl absorb st cs))) = distinct (map fst (enrichment_levels st))"
  by (induction cs arbitrary: st) auto

lemma chains_absorbed:
  "convergence_chains (foldl absorb st cs) = convergence_chains st @ concat (map c_chains cs)"
  by (induction cs arbitrary: st) auto



subsection \<open>Division by the number of points\<close>

text \<open>
  C2. The claim: for an empty input set no division by the total record count is
  performed. The code divides at line 189 whatever the count is: on four documents
  without points the run prints up to the heading of the data quality section and ends
  with \<^verbatim>\<open>ZeroDivisionError\<close>.
\<close>

theorem empty_input_zero_division:
  "snd (main (batches [])) = Some ZeroDivisionError \<and>
   last (fst (main (batches []))) = [Lit ''## Data Quality Assessment:'']"
  by code_simp

subsection \<open>Statistics on too few values\<close>

text \<open>
  C3. The claim: the guards keep every statistic from running on too few values. The
  guard of line 149 lets a single score through, and \<^verbatim>\<open>statistics.stdev\<close> of line 155
  needs two: a run on one point with one chain carrying one score ends with
  \<^verbatim>\<open>StatisticsError\<close>, after the line of the minimum.
\<close>

theorem single_score_stdev_raises:
  "snd (main (batches [point [(''convergenceChains'',
      JArr [JObj [(''convergenceScore'', JNum 7)]])]])) = Some StatisticsError \<and>
   last (fst (main (batches [point [(''convergenceChains'',
      JArr [JObj [(''convergenceScore'', JNum 7)]])]]))) =
     [Lit ''- Min convergence score: '', Fix2 7]"
  by code_simp

subsection \<open>The sample input\<close>

lemma analyze_sample_points: "analyze sample_points = Inr sample_agg"
  by code_simp

lemma load_sample_points: "load (batches sample_points) = Inr sample_points"
  by code_simp

subsection \<open>The fixed first insight\<close>




subsection \<open>The ranges of scores\<close>

lemma mean_nonempty: "ss \<noteq> [] \<Longrightarrow> mean ss = Inr (sum_list ss / of_nat (length ss))"
  by (simp add: mean_def)

lemma run_buckets:
  "run_sections
       (map (\<lambda>(range_name, ss).
          if ss \<noteq> []
          then attempt (mean ss) (\<lambda>m.
            says [[Lit ''  * '', Lit range_name, Lit '': '', Num (length ss),
                   Lit '' scores (avg: '', Fix2 m, Lit '')'']])
          else says [])
        bs) =
   (map (\<lambda>(range_name, ss). bucket_line range_name ss)
        (filter (\<lambda>(range_name, ss). ss \<noteq> []) bs), None)"
  by (induction bs) (auto simp: mean_def attempt_def says_def bucket_line_def)

text \<open>
  C10. The lines of the score distribution are the lines of the ranges that hold a
  score, in the order of the ranges, each with its count and mean; a range that holds no
  score has no line, and printing them raises nothing.
\<close>

theorem empty_bucket_prints_nothing:
  "range_lines scores =
     (map (\<lambda>(range_name, ss). bucket_line range_name ss)
        (filter (\<lambda>(range_name, ss). ss \<noteq> []) (score_ranges scores)), None)"
  unfolding range_lines_def by (rule run_buckets)

text \<open>
  C4, as stated, fails: a run on one point with two chains of score -1 completes, both
  scores are recorded, and neither falls into a range: the score section ends with the
  heading of the distribution and no line under it.
\<close>

theorem negative_score_in_no_range:
  "snd (main (batches [score_point [JNum (- 1), JNum (- 1)]])) = None \<and>
   map_sum id convergence_scores (analyze [score_point [JNum (- 1), JNum (- 1)]]) =
     Inr [JNum (- 1), JNum (- 1)] \<and>
   score_section [JNum (- 1), JNum (- 1)] =
     ([[Lit ''## Convergence Scores Analysis:''],
       [Lit ''- Total scores recorded: '', Num 2],
       [Lit ''- Average convergence score: '', Fix2 (- 1)],
       [Lit ''- Median convergence score: '', Fix2 (- 1)],
       [Lit ''- Max convergence score: '', Fix2 (- 1)],
       [Lit ''- Min convergence score: '', Fix2 (- 1)],
       [Lit ''- Standard deviation: '', Root2 0],
       [Lit ''- Score distribution by ranges:''],
       []], None) \<and>
   map snd (score_ranges [- 1, - 1]) = [[], [], [], [], []]"
proof (intro conjI)
  show "snd (main (batches [score_point [JNum (- 1), JNum (- 1)]])) = None"
    by code_simp
  show "map_sum id convergence_scores (analyze [score_point [JNum (- 1), JNum (- 1)]]) =
     Inr [JNum (- 1), JNum (- 1)]"
    by code_simp
  show "score_section [JNum (- 1), JNum (- 1)] =
     ([[Lit ''## Convergence Scores Analysis:''],
       [Lit ''- Total scores recorded: '', Num 2],
       [Lit ''- Average convergence score: '', Fix2 (- 1)],
       [Lit ''- Median convergence score: '', Fix2 (- 1)],
       [Lit ''- Max convergence score: '', Fix2 (- 1)],
       [Lit ''- Min convergence score: '', Fix2 (- 1)],
       [Lit ''- Standard deviation: '', Root2 0],
       [Lit ''- Score distribution by ranges:''],
       []], None)"
    by code_simp
  show "map snd (score_ranges [- 1, - 1]) = [[], [], [], [], []]"
    by (simp add: score_ranges_def)
qed

text \<open>
  C4, amended. The number of ranges that hold a score is 1 for a recorded score that
  is not negative and 0 for any other value, so no score is in two ranges and the
  recorded scores from 0 up are in exactly one; and for the scores 1, 6, 11, 22 the
  fourth and last line printed is the line of the range 20+, with one score of mean 22.
\<close>

theorem score_in_one_range:
  "length (filter (\<lambda>b. s \<in> set (snd b)) (score_ranges scores)) =
     (if s \<in> set scores \<and> 0 \<le> s then 1 else 0) \<and>
   range_lines [1, 6, 11, 22] =
     ([bucket_line ''0-5'' [1], bucket_line ''5-10'' [6], bucket_line ''10-15'' [11],
       bucket_line ''20+'' [22]], None) \<and>
   bucket_line ''20+'' [22] =
     [Lit ''  * '', Lit ''20+'', Lit '': '', Num 1, Lit '' scores (avg: '', Fix2 22, Lit '')'']"
proof (intro conjI)
  show "length (filter (\<lambda>b. s \<in> set (snd b)) (score_ranges scores)) =
     (if s \<in> set scores \<and> 0 \<le> s then 1 else 0)"
    by (auto simp: score_ranges_def)
  show "range_lines [1, 6, 11, 22] =
     ([bucket_line ''0-5'' [1], bucket_line ''5-10'' [6], bucket_line ''10-15'' [11],
       bucket_line ''20+'' [22]], None)"
    by (simp add: range_lines_def score_ranges_def mean_def attempt_def says_def bucket_line_def)
  show "bucket_line ''20+'' [22] =
     [Lit ''  * '', Lit ''20+'', Lit '': '', Num 1, Lit '' scores (avg: '', Fix2 22, Lit '')'']"
    by (simp add: bucket_line_def)
qed

subsection \<open>File identities\<close>

lemma contribution_ofD:
  assumes "contribution_of p = Inr c"
  shows "\<exists>kvs. get_payload p = Inr (JObj kvs) \<and>
           c_fields c = map fst kvs \<and>
           hash_opt (first_of ''sourceFile'' ''file'' kvs) = Inr (c_file c) \<and>
           mapM py_hash (category_values kvs) = Inr (c_categories c) \<and>
           hash_opt (first_of ''intelligence_type'' ''intelligenceType'' kvs) = Inr (c_intelligence c) \<and>
           chain_values kvs = Inr (c_chains c, c_scores c) \<and>
           hash_opt (first_of ''enrichment_level'' ''enrichmentLevel'' kvs) = Inr (c_enrichment c)"
proof -
  from assms obtain payload where p: "get_payload p = Inr payload"
    by (auto simp: contribution_of_def bind_eq_Inr)
  with assms obtain keys where k: "py_keys payload = Inr keys"
    by (auto simp: contribution_of_def bind_eq_Inr)
  then obtain kvs where kvs: "payload = JObj kvs" "keys = map fst kvs"
    by (cases payload) auto
  from assms p k kvs show ?thesis
    by (auto simp: contribution_of_def bind_eq_Inr)
qed

lemma analyzeD:
  assumes "analyze pts = Inr st"
  shows "\<exists>cs. mapM contribution_of pts = Inr cs \<and> st = foldl absorb empty_agg cs \<and>
     cs = map (\<lambda>p. projr (contribution_of p)) pts \<and>
     (\<forall>p\<in>set pts. \<exists>c. contribution_of p = Inr c)"
proof -
  from assms obtain cs where cs: "mapM contribution_of pts = Inr cs" "st = foldl absorb empty_agg cs"
    by (auto simp: analyze_eq bind_eq_Inr)
  with mapM_Inr_D[OF cs(1)] show ?thesis by blast
qed

lemma empty_agg_simps [simp]:
  "files_unique empty_agg = []" "categories_dist empty_agg = []"
  "intelligence_types empty_agg = []" "convergence_chains empty_agg = []"
  "enrichment_levels empty_agg = []" "convergence_scores empty_agg = []"
  "payload_fields empty_agg = []"
  by (simp_all add: empty_agg_def)

lemma key_present: "k \<in> fst ` set kvs \<longleftrightarrow> map_of kvs k \<noteq> None"
  by (simp add: map_of_eq_None_iff)

lemma file_identity_first_of: "file_identity kvs = first_of ''sourceFile'' ''file'' kvs"
  by (auto simp: file_identity_def first_of_def key_present split: option.splits)

lemma hash_opt_Some: "hash_opt vo = Inr (Some k) \<longleftrightarrow> (\<exists>v. vo = Some v \<and> py_hash v = Inr k)"
  by (cases vo) (auto simp: hash_opt_def bind_eq_Inr)

lemma hash_opt_None: "hash_opt vo = Inr None \<longleftrightarrow> vo = None"
  by (cases vo) (auto simp: hash_opt_def bind_eq_Inr)

text \<open>
  C6. After a loop that raises nothing, the set of file identities holds exactly the
  hashed identities of the points (the \<^verbatim>\<open>sourceFile\<close> value when the key is present,
  otherwise the \<^verbatim>\<open>file\<close> value when that key is present, nothing when neither is),
  and holds each once.
\<close>

theorem file_identities_collected:
  assumes "analyze pts = Inr st"
  shows "set (files_unique st) =
           {k. \<exists>p\<in>set pts. \<exists>kvs v. get_payload p = Inr (JObj kvs) \<and>
                  file_identity kvs = Some v \<and> py_hash v = Inr k} \<and>
         distinct (files_unique st)"
proof -
  from analyzeD[OF assms] obtain cs where
    st: "st = foldl absorb empty_agg cs" and
    cs: "cs = map (\<lambda>p. projr (contribution_of p)) pts" and
    ok: "\<forall>p\<in>set pts. \<exists>c. contribution_of p = Inr c"
    by blast
  have fid: "c_file c = Some k \<longleftrightarrow>
      (\<exists>kvs v. get_payload p = Inr (JObj kvs) \<and> file_identity kvs = Some v \<and> py_hash v = Inr k)"
    if "contribution_of p = Inr c" for p c k
    using contribution_ofD[OF that]
    by (auto simp: file_identity_first_of hash_opt_Some[symmetric])
  have "{k. \<exists>c\<in>set cs. c_file c = Some k} =
        {k. \<exists>p\<in>set pts. \<exists>kvs v. get_payload p = Inr (JObj kvs) \<and>
                  file_identity kvs = Some v \<and> py_hash v = Inr k}"
  proof (intro set_eqI iffI; clarify)
    fix k c
    assume "c \<in> set cs" "c_file c = Some k"
    then obtain p where p: "p \<in> set pts" "c = projr (contribution_of p)"
      using cs by auto
    with ok have "contribution_of p = Inr c" by force
    from fid[OF this] \<open>c_file c = Some k\<close> p(1)
    show "\<exists>p\<in>set pts. \<exists>kvs v. get_payload p = Inr (JObj kvs) \<and>
                  file_identity kvs = Some v \<and> py_hash v = Inr k"
      by blast
  next
    fix k p kvs v
    assume p: "p \<in> set pts" and h: "get_payload p = Inr (JObj kvs)"
      "file_identity kvs = Some v" "py_hash v = Inr k"
    from ok p obtain c where c: "contribution_of p = Inr c" by blast
    with fid[OF c] h have "c_file c = Some k" by blast
    moreover from c p cs have "c \<in> set cs" by force
    ultimately show "\<exists>c\<in>set cs. c_file c = Some k" by blast
  qed
  then show ?thesis
    by (simp add: st files_absorbed distinct_files_absorbed)
qed

theorem file_identities_collected_witness:
  "analyze sample_points = Inr sample_agg \<and>
   files_unique sample_agg = [KStr ''b.md'', KStr ''a.md''] \<and>
   set (files_unique sample_agg) =
     {k. \<exists>p\<in>set sample_points. \<exists>kvs v. get_payload p = Inr (JObj kvs) \<and>
            file_identity kvs = Some v \<and> py_hash v = Inr k} \<and>
   distinct (files_unique sample_agg)"
  using analyze_sample_points file_identities_collected[OF analyze_sample_points]
  by (simp add: sample_agg_def)

subsection \<open>No chains, no chain statistics\<close>

lemma has_any_single_False:
  "has_any [k] p = Inr False \<Longrightarrow> get_payload p = Inr (JObj kvs) \<Longrightarrow> map_of kvs k = None"
  by (auto simp: bind_eq_Inr split: if_splits)

lemma chain_section_empty:
  "chain_section [] = ([[Lit ''## Convergence Chain Analysis:''],
      [Lit ''- No convergence chains data found''], []], None)"
  by (simp add: chain_section_def says_def)

text \<open>
  C7. When no point carries the key \<^verbatim>\<open>convergenceChains\<close> (the test of line 187 is
  false on each), the loop records no participant count, and the chain section is its
  heading, the line that no data was found and an empty line: no statistic is computed.
\<close>

theorem no_chains_no_statistics:
  assumes "analyze pts = Inr st"
    and "\<forall>p\<in>set pts. has_any [''convergenceChains''] p = Inr False"
  shows "convergence_chains st = [] \<and>
         chain_section (convergence_chains st) =
           ([[Lit ''## Convergence Chain Analysis:''],
             [Lit ''- No convergence chains data found''], []], None)"
proof -
  from analyzeD[OF assms(1)] obtain cs where
    st: "st = foldl absorb empty_agg cs" and
    cs: "cs = map (\<lambda>p. projr (contribution_of p)) pts" and
    ok: "\<forall>p\<in>set pts. \<exists>c. contribution_of p = Inr c"
    by blast
  have "c_chains c = []" if "c \<in> set cs" for c
  proof -
    from that cs obtain p where p: "p \<in> set pts" "c = projr (contribution_of p)" by auto
    with ok have c: "contribution_of p = Inr c" by force
    from contribution_ofD[OF c] obtain kvs where
      kvs: "get_payload p = Inr (JObj kvs)" "chain_values kvs = Inr (c_chains c, c_scores c)"
      by blast
    from assms(2) p(1) have "has_any [''convergenceChains''] p = Inr False" by blast
    from has_any_single_False[OF this kvs(1)] kvs(2) show ?thesis
      by (simp add: chain_values_def)
  qed
  then have "concat (map c_chains cs) = []" by simp
  then have "convergence_chains st = []"
    by (simp add: st chains_absorbed)
  then show ?thesis by (simp add: chain_section_empty)
qed

theorem no_chains_no_statistics_witness:
  "list_all (\<lambda>p. has_any [''convergenceChains''] p = Inr False) (drop 1 sample_points) \<and>
   (\<exists>st. analyze (drop 1 sample_points) = Inr st \<and>
      convergence_chains st = [] \<and>
      chain_section (convergence_chains st) =
        ([[Lit ''## Convergence Chain Analysis:''],
          [Lit ''- No convergence chains data found''], []], None))"
proof -
  have a: "list_all (\<lambda>p. has_any [''convergenceChains''] p = Inr False) (drop 1 sample_points)"
    by code_simp
  have b: "analyze (drop 1 sample_points) =
     Inr \<lparr>files_unique = [KStr ''a.md'', KStr ''b.md''],
        categories_dist = [(KStr ''ai'', 1)], intelligence_types = [],
        convergence_chains = [], enrichment_levels = [(KStr ''full'', 1)],
        convergence_scores = [],
        payload_fields = [''file'', ''categories'', ''enrichmentLevel'', ''title'']\<rparr>"
    by code_simp
  from a have "\<forall>p\<in>set (drop 1 sample_points). has_any [''convergenceChains''] p = Inr False"
    by (simp only: list_all_iff)
  from no_chains_no_statistics[OF b this] a b show ?thesis by blast
qed

subsection \<open>Percentages\<close>

lemma percentages_append: "percentages (a @ b) = percentages a @ percentages b"
  by (simp add: percentages_def)

lemma percentages_Nil [simp]: "percentages [] = []"
  by (simp add: percentages_def)

lemma percentages_Cons: "percentages (l # ls) = concat (map item_percentage l) @ percentages ls"
  by (simp add: percentages_def)

lemma item_percentage_score_item [simp]: "item_percentage (score_item s) = []"
  by (cases s) simp_all

lemma pct_says: "percentages ls = [] \<Longrightarrow> all_percentages P (says ls)"
  by (simp add: all_percentages_def says_def)

lemma pct_attempt:
  "(\<And>v. m = Inr v \<Longrightarrow> all_percentages P (f v)) \<Longrightarrow> all_percentages P (attempt m f)"
  by (cases m) (simp_all add: attempt_def all_percentages_def)

lemma pct_run_sections:
  "list_all (all_percentages P) secs \<Longrightarrow> all_percentages P (run_sections secs)"
proof (induction secs)
  case Nil
  then show ?case by (simp add: all_percentages_def)
next
  case (Cons s secs)
  obtain ls e where s: "s = (ls, e)" by (cases s)
  show ?case
  proof (cases e)
    case None
    with s Cons show ?thesis
      by (simp add: all_percentages_def percentages_append)
  next
    case (Some err)
    with s Cons.prems show ?thesis
      by (simp add: all_percentages_def)
  qed
qed

lemma percentage_nonneg: "percentage cnt n = Inr p \<Longrightarrow> 0 \<le> p"
  by (auto simp: percentage_def split: if_splits)

lemma percentage_at_most_100:
  assumes "percentage cnt n = Inr p" and "cnt \<le> n"
  shows "p \<le> 100"
proof -
  from assms(1) have n: "n \<noteq> 0" and p: "p = of_nat cnt / of_nat n * 100"
    by (auto simp: percentage_def split: if_splits)
  from assms(2) n have "(of_nat cnt :: rat) / of_nat n \<le> 1"
    by (simp add: divide_le_eq_1)
  then have "(of_nat cnt :: rat) / of_nat n * 100 \<le> 1 * 100"
    by (rule mult_right_mono) simp
  then show ?thesis unfolding p by simp
qed

lemma pct_percentage_line:
  assumes "\<And>p. percentage cnt n = Inr p \<Longrightarrow> P p"
    and "all_percentages P (says [pre @ post])"
  shows "all_percentages P (attempt (percentage cnt n) (\<lambda>p. says [pre @ [Pct p] @ post]))"
proof (cases "percentage cnt n")
  case (Inl e)
  then show ?thesis by (simp add: attempt_def all_percentages_def)
next
  case (Inr p)
  with assms(1) have "P p" by simp
  with Inr assms(2) show ?thesis
    by (simp add: all_percentages_def says_def attempt_def percentages_def)
qed

lemma pct_dist_lines:
  assumes "\<And>k c p. (k, c) \<in> set d \<Longrightarrow> percentage c n = Inr p \<Longrightarrow> P p"
  shows "all_percentages P (dist_lines d n)"
  unfolding dist_lines_def
proof (rule pct_run_sections, unfold list_all_iff, clarsimp)
  fix k c
  assume "(k, c) \<in> set (by_count_desc d)"
  then have kc: "(k, c) \<in> set d" by (simp add: by_count_desc_def)
  have "all_percentages P (says [[Lit ''- '', Key k, Lit '': '', Num c, Lit '' points (''] @ [Lit ''%)'']])"
    by (simp add: all_percentages_def says_def percentages_def)
  from pct_percentage_line[OF assms[OF kc] this]
  show "all_percentages P (attempt (percentage c n)
           (\<lambda>p. says [[Lit ''- '', Key k, Lit '': '', Num c, Lit '' points ('', Pct p, Lit ''%)'']]))"
    by simp
qed

lemma pct_quality_line:
  assumes "\<And>p. percentage cnt n = Inr p \<Longrightarrow> P p"
  shows "all_percentages P (quality_line label cnt n)"
proof -
  have "all_percentages P (says [[Lit label, Num cnt, Lit ''/'', Num n, Lit '' (''] @ [Lit ''%)'']])"
    by (simp add: all_percentages_def says_def percentages_def)
  from pct_percentage_line[OF assms this] show ?thesis
    by (simp add: quality_line_def)
qed

lemma counting_bound:
  "foldM (\<lambda>c p. bind (g p) (\<lambda>b. Inr (if b then c + 1 else c))) c0 pts = Inr c \<Longrightarrow>
   c \<le> c0 + length pts"
proof (induction pts arbitrary: c0)
  case Nil
  then show ?case by simp
next
  case (Cons p pts)
  from Cons.prems obtain b where
    "foldM (\<lambda>c p. bind (g p) (\<lambda>b. Inr (if b then c + 1 else c))) (if b then c0 + 1 else c0) pts = Inr c"
    by (auto simp: bind_eq_Inr)
  from Cons.IH[OF this] show ?case by (simp split: if_splits)
qed

lemma points_with_bound: "points_with ks pts = Inr c \<Longrightarrow> c \<le> length pts"
  unfolding points_with_def by (drule counting_bound) simp

lemma pct_quality_section:
  assumes "\<And>c p. c \<le> length pts \<Longrightarrow> percentage c (length pts) = Inr p \<Longrightarrow> P p"
  shows "all_percentages P (quality_section pts)"
proof -
  have l: "all_percentages P (quality_line label a (length pts))" if "a \<le> length pts"
    for label a
    by (rule pct_quality_line) (rule assms[OF that])
  have q: "all_percentages P (run_sections
            [quality_line l1 a (length pts), quality_line l2 b (length pts),
             quality_line l3 c (length pts), quality_line l4 d (length pts), says [[]]])"
    if "a \<le> length pts" "b \<le> length pts" "c \<le> length pts" "d \<le> length pts"
    for l1 l2 l3 l4 a b c d
    by (rule pct_run_sections)
       (simp add: that l pct_says percentages_def)
  show ?thesis
    unfolding quality_section_def
    by (rule pct_run_sections)
       (auto simp: pct_says percentages_def intro!: pct_attempt q dest: points_with_bound)
qed

lemma pct_connection_status: "all_percentages P (connection_status pts)"
  by (simp add: connection_status_def pct_says percentages_def)

lemma pct_data_overview: "all_percentages P (data_overview st)"
  by (simp add: data_overview_def pct_says percentages_def)

lemma pct_sample_file: "all_percentages P (sample_file p)"
  unfolding sample_file_def
  by (auto intro!: pct_attempt simp: pct_says percentages_def)

lemma pct_sample_chain: "all_percentages P (sample_chain p)"
  unfolding sample_chain_def
  by (auto intro!: pct_attempt pct_run_sections simp: pct_says percentages_def
      split: json.splits list.splits)

lemma pct_sample_section: "all_percentages P (sample_section pts)"
  unfolding sample_section_def
  by (auto intro!: pct_attempt pct_run_sections
      simp: pct_says percentages_def pct_sample_file pct_sample_chain
      split: list.splits)

lemma pct_files_section: "all_percentages P (files_section st)"
  unfolding files_section_def
  by (auto intro!: pct_attempt pct_run_sections pct_says
      simp: percentages_def percentages_append)

lemma pct_chain_section: "all_percentages P (chain_section cc)"
  unfolding chain_section_def
  by (auto intro!: pct_attempt pct_run_sections pct_says
      simp: percentages_def)

lemma main_cases:
  "main files =
     (case load files of
        Inl e \<Rightarrow> ([[Lit ''=== QDRANT KNOWLEDGE CONSOLIDATOR ANALYSIS ===''], []], Some e)
      | Inr pts \<Rightarrow>
         (case analyze pts of
            Inl e \<Rightarrow> ([[Lit ''=== QDRANT KNOWLEDGE CONSOLIDATOR ANALYSIS ===''], []], Some e)
          | Inr st \<Rightarrow>
              ([[Lit ''=== QDRANT KNOWLEDGE CONSOLIDATOR ANALYSIS ===''], []] @ fst (report pts st),
               snd (report pts st))))"
  by (simp add: main_def says_def attempt_def run_sections_single del: run_sections.simps(1)
      split: sum.splits)

lemma percentages_map_none:
  "(\<And>x. x \<in> set xs \<Longrightarrow> concat (map item_percentage (g x)) = []) \<Longrightarrow> percentages (map g xs) = []"
  by (simp add: percentages_def)

lemma pct_range_lines: "all_percentages P (range_lines scores)"
proof -
  have "percentages (map (\<lambda>(range_name, ss). bucket_line range_name ss) bs) = []" for bs
    by (rule percentages_map_none) (auto simp: bucket_line_def)
  then show ?thesis
    by (simp add: range_lines_def run_buckets all_percentages_def)
qed

lemma pct_score_section: "all_percentages P (score_section cs)"
  unfolding score_section_def
  by (auto intro!: pct_attempt pct_run_sections pct_says pct_range_lines
      simp: percentages_def)

lemma pct_insights_section: "all_percentages P (insights_section st)"
  unfolding insights_section_def
  by (auto intro!: pct_attempt pct_run_sections pct_says
      simp: percentages_def)

lemma pct_curl_section: "all_percentages P curl_section"
  by (simp add: curl_section_def pct_says percentages_def)

lemma pct_dist_section:
  "all_percentages P (dist_lines d n) \<Longrightarrow>
   all_percentages P (run_sections [says [[Lit title]], dist_lines d n, says [[]]])"
  by (rule pct_run_sections) (simp add: pct_says percentages_def)

lemma pct_report:
  assumes "all_percentages P (dist_lines (categories_dist st) (length pts))"
    and "all_percentages P (dist_lines (intelligence_types st) (length pts))"
    and "all_percentages P (dist_lines (enrichment_levels st) (length pts))"
    and "all_percentages P (quality_section pts)"
  shows "all_percentages P (report pts st)"
proof -
  have "all_percentages P (categories_section pts st)"
    unfolding categories_section_def using assms(1) by (rule pct_dist_section)
  moreover have "all_percentages P (intelligence_section pts st)"
    unfolding intelligence_section_def using assms(2) by (rule pct_dist_section)
  moreover have "all_percentages P (enrichment_section pts st)"
    unfolding enrichment_section_def
    by (rule pct_run_sections) (simp add: pct_says percentages_def assms(3))
  ultimately show ?thesis
    unfolding report_def
    by (intro pct_run_sections)
       (simp add: pct_connection_status pct_data_overview pct_sample_section
         pct_files_section pct_chain_section pct_score_section
         assms(4) pct_insights_section pct_curl_section)
qed

lemma pct_main:
  assumes "load files = Inr pts"
    and "\<And>st. analyze pts = Inr st \<Longrightarrow> all_percentages P (report pts st)"
  shows "list_all P (percentages (fst (main files)))"
proof (cases "analyze pts")
  case (Inl e)
  with assms(1) show ?thesis
    by (simp add: main_cases percentages_def)
next
  case (Inr st)
  from assms(2)[OF Inr] assms(1) Inr show ?thesis
    by (simp add: main_cases all_percentages_def percentages_append percentages_def)
qed

lemma count_of_Nil [simp]: "count_of [] k = 0"
  by (simp add: count_of_def)

lemma dict_entry_count: "distinct (map fst d) \<Longrightarrow> (k, c) \<in> set d \<Longrightarrow> count_of d k = c"
  by (simp add: count_of_def)

lemma sum_list_le_length:
  "(\<And>x. x \<in> set xs \<Longrightarrow> f x \<le> (1::nat)) \<Longrightarrow> sum_list (map f xs) \<le> length xs"
proof (induction xs)
  case Nil
  then show ?case by simp
next
  case (Cons x xs)
  from Cons.prems[of x] have "f x \<le> 1" by simp
  moreover from Cons have "sum_list (map f xs) \<le> length xs" by simp
  ultimately show ?case by simp
qed

lemma count_list_distinct: "distinct xs \<Longrightarrow> count_list xs k \<le> 1"
  by (induction xs) (auto simp: count_list_0_iff)

lemma mapM_map_Inr: "mapM f xs = Inr ys \<Longrightarrow> map f xs = map Inr ys"
proof (induction xs arbitrary: ys)
  case Nil
  then show ?case by simp
next
  case (Cons x xs)
  from Cons.prems obtain y ys' where "f x = Inr y" "mapM f xs = Inr ys'" "ys = y # ys'"
    by (auto simp: bind_eq_Inr)
  with Cons.IH[of ys'] show ?case by simp
qed

lemma intelligence_bound:
  assumes "analyze pts = Inr st" and "(k, c) \<in> set (intelligence_types st)"
  shows "c \<le> length pts"
proof -
  from analyzeD[OF assms(1)] obtain cs where
    st: "st = foldl absorb empty_agg cs" and cs: "cs = map (\<lambda>p. projr (contribution_of p)) pts"
    by blast
  have "distinct (map fst (intelligence_types st))"
    by (simp add: st distinct_dicts_absorbed)
  from dict_entry_count[OF this assms(2)]
  have "c = sum_list (map (\<lambda>c. if c_intelligence c = Some k then 1 else 0) cs)"
    by (simp add: st intelligence_absorbed)
  also have "\<dots> \<le> length cs" by (rule sum_list_le_length) simp
  finally show ?thesis by (simp add: cs)
qed

lemma enrichment_bound:
  assumes "analyze pts = Inr st" and "(k, c) \<in> set (enrichment_levels st)"
  shows "c \<le> length pts"
proof -
  from analyzeD[OF assms(1)] obtain cs where
    st: "st = foldl absorb empty_agg cs" and cs: "cs = map (\<lambda>p. projr (contribution_of p)) pts"
    by blast
  have "distinct (map fst (enrichment_levels st))"
    by (simp add: st distinct_dicts_absorbed)
  from dict_entry_count[OF this assms(2)]
  have "c = sum_list (map (\<lambda>c. if c_enrichment c = Some k then 1 else 0) cs)"
    by (simp add: st enrichment_absorbed)
  also have "\<dots> \<le> length cs" by (rule sum_list_le_length) simp
  finally show ?thesis by (simp add: cs)
qed

lemma categories_bound:
  assumes "analyze pts = Inr st" and "(k, c) \<in> set (categories_dist st)"
    and "\<forall>p\<in>set pts. no_repeated_category p"
  shows "c \<le> length pts"
proof -
  from analyzeD[OF assms(1)] obtain cs where
    st: "st = foldl absorb empty_agg cs" and cs: "cs = map (\<lambda>p. projr (contribution_of p)) pts"
    and ok: "\<forall>p\<in>set pts. \<exists>c. contribution_of p = Inr c"
    by blast
  have once: "count_list (c_categories x) k \<le> 1" if "x \<in> set cs" for x
  proof -
    from that cs obtain p where p: "p \<in> set pts" "x = projr (contribution_of p)" by auto
    with ok have "contribution_of p = Inr x" by force
    from contribution_ofD[OF this] obtain kvs where
      kvs: "get_payload p = Inr (JObj kvs)" "mapM py_hash (category_values kvs) = Inr (c_categories x)"
      by blast
    from assms(3) p(1) kvs(1) have "distinct (map py_hash (category_values kvs))"
      by (auto simp: no_repeated_category_def)
    with mapM_map_Inr[OF kvs(2)] have "distinct (c_categories x)"
      by (simp add: distinct_map)
    then show ?thesis by (rule count_list_distinct)
  qed
  have "distinct (map fst (categories_dist st))"
    by (simp add: st distinct_dicts_absorbed)
  from dict_entry_count[OF this assms(2)]
  have "c = sum_list (map (\<lambda>c. count_list (c_categories c) k) cs)"
    by (simp add: st categories_absorbed)
  also have "\<dots> \<le> length cs" by (rule sum_list_le_length) (rule once)
  finally show ?thesis by (simp add: cs)
qed

text \<open>
  C1, as stated, fails: a point whose category list names a category twice counts it
  twice, and with one point loaded the category is reported at 200 percent.
\<close>

theorem repeated_category_over_100:
  "percentages (fst (main (batches [point [(''categories'', JArr [JStr ''a'', JStr ''a''])]]))) =
     [200, 0, 100, 0, 0]"
  by code_simp

text \<open>
  C1, amended. When at least one point is loaded, every percentage the run prints is at
  least 0; those of the intelligence types, of the enrichment levels and of the data
  quality assessment are at most 100; and when no point's category list names a category
  twice, so are those of the categories, that is, all of them.
\<close>

theorem percentages_in_range:
  assumes "load files = Inr pts" and "0 < length pts"
  shows "(\<forall>q\<in>set (percentages (fst (main files))). 0 \<le> q) \<and>
         (\<forall>st. analyze pts = Inr st \<longrightarrow>
            (\<forall>q\<in>set (percentages (fst (intelligence_section pts st)) @
                     percentages (fst (enrichment_section pts st)) @
                     percentages (fst (quality_section pts))). 0 \<le> q \<and> q \<le> 100)) \<and>
         ((\<forall>p\<in>set pts. no_repeated_category p) \<longrightarrow>
            (\<forall>q\<in>set (percentages (fst (main files))). 0 \<le> q \<and> q \<le> 100))"
proof (intro conjI allI impI)
  have "all_percentages (\<lambda>q. 0 \<le> q) (report pts st)" for st
    by (intro pct_report pct_dist_lines pct_quality_section) (auto dest: percentage_nonneg)
  from pct_main[OF assms(1) this]
  show "\<forall>q\<in>set (percentages (fst (main files))). 0 \<le> q"
    by (simp add: list_all_iff)
next
  fix st
  assume st: "analyze pts = Inr st"
  let ?P = "\<lambda>q::rat. 0 \<le> q \<and> q \<le> 100"
  have i: "all_percentages ?P (dist_lines (intelligence_types st) (length pts))"
    by (rule pct_dist_lines)
       (auto dest: intelligence_bound[OF st] percentage_at_most_100 percentage_nonneg)
  have e: "all_percentages ?P (dist_lines (enrichment_levels st) (length pts))"
    by (rule pct_dist_lines)
       (auto dest: enrichment_bound[OF st] percentage_at_most_100 percentage_nonneg)
  have "all_percentages ?P (intelligence_section pts st)"
    unfolding intelligence_section_def using i by (rule pct_dist_section)
  moreover have "all_percentages ?P (enrichment_section pts st)"
    unfolding enrichment_section_def
    by (rule pct_run_sections) (simp add: pct_says percentages_def e)
  moreover have "all_percentages ?P (quality_section pts)"
    by (rule pct_quality_section) (auto dest: percentage_at_most_100 percentage_nonneg)
  ultimately show "\<forall>q\<in>set (percentages (fst (intelligence_section pts st)) @
                     percentages (fst (enrichment_section pts st)) @
                     percentages (fst (quality_section pts))). 0 \<le> q \<and> q \<le> 100"
    by (auto simp: all_percentages_def list_all_iff)
next
  assume nr: "\<forall>p\<in>set pts. no_repeated_category p"
  have "all_percentages (\<lambda>q. 0 \<le> q \<and> q \<le> 100) (report pts st)"
    if st: "analyze pts = Inr st" for st
    by (intro pct_report pct_dist_lines pct_quality_section)
       (auto dest: categories_bound[OF st _ nr] intelligence_bound[OF st] enrichment_bound[OF st]
          percentage_at_most_100 percentage_nonneg)
  from pct_main[OF assms(1) this]
  show "\<forall>q\<in>set (percentages (fst (main files))). 0 \<le> q \<and> q \<le> 100"
    by (simp add: list_all_iff)
qed

theorem percentages_in_range_witness:
  "load (batches sample_points) = Inr sample_points \<and>
   0 < length sample_points \<and>
   list_all no_repeated_category sample_points \<and>
   percentages (fst (main (batches sample_points))) = [50, 25, 25, 25, 75, 50, 25, 25] \<and>
   list_all (\<lambda>q. 0 \<le> q \<and> q \<le> 100) (percentages (fst (main (batches sample_points)))) \<and>
   analyze sample_points = Inr sample_agg \<and>
   list_all (\<lambda>q. 0 \<le> q \<and> q \<le> 100)
     (percentages (fst (intelligence_section sample_points sample_agg)) @
      percentages (fst (enrichment_section sample_points sample_agg)) @
      percentages (fst (quality_section sample_points)))"
proof -
  have b: "0 < length sample_points" by (simp add: sample_points_def)
  have c: "list_all no_repeated_category sample_points" by code_simp
  have d: "percentages (fst (main (batches sample_points))) = [50, 25, 25, 25, 75, 50, 25, 25]"
    by code_simp
  from c have c': "\<forall>p\<in>set sample_points. no_repeated_category p"
    by (simp only: list_all_iff)
  from percentages_in_range[OF load_sample_points b] c' analyze_sample_points
  have "list_all (\<lambda>q. 0 \<le> q \<and> q \<le> 100) (percentages (fst (main (batches sample_points))))"
    "list_all (\<lambda>q. 0 \<le> q \<and> q \<le> 100)
     (percentages (fst (intelligence_section sample_points sample_agg)) @
      percentages (fst (enrichment_section sample_points sample_agg)) @
      percentages (fst (quality_section sample_points)))"
    unfolding list_all_iff by blast+
  with load_sample_points b c d analyze_sample_points show ?thesis by blast
qed

subsection \<open>Statistics of a list depend on its elements only\<close>

























subsection \<open>The order in which a set yields its members\<close>







subsection \<open>The order of the records\<close>

















end
